theory Spec2Isabelle
  imports Main "HOL-Library.AList"
begin

section \<open>Python values, keyword dictionaries and exceptions\<close>

text \<open>
  The exceptions the two modules can raise. \<open>Exception\<close> carries the message given to
  \<^verbatim>\<open>raise Exception(...)\<close>; \<open>KeyError\<close> carries the key. \<open>TypeError\<close> is what the
  interpreter raises when a call names one keyword twice, \<open>AttributeError\<close> when an
  attribute that was never assigned is read (it carries the attribute's name) and
  \<open>NameError\<close> when a global name is not bound in the module (it carries the name).
\<close>

datatype error =
    Exception string
  | TypeError string
  | KeyError string
  | AttributeError string
  | NameError string

text \<open>
  A keyword dictionary (\<^verbatim>\<open>**kwargs\<close>): names with their values, in insertion order.
  \<open>dict_update d e\<close> is \<^verbatim>\<open>d.update(**e)\<close> on a copy of \<open>d\<close>.
\<close>

type_synonym 'v kwargs = "(string \<times> 'v) list"

definition dict_update :: "'v kwargs \<Rightarrow> 'v kwargs \<Rightarrow> 'v kwargs" where
  "dict_update d e = fold (\<lambda>(k, v). AList.update k v) e d"

text \<open>
  A call \<^verbatim>\<open>f(a=x, b=y, **kwargs)\<close> raises TypeError (multiple values for a keyword
  argument) when \<open>kwargs\<close> holds one of the names written out in the call.
\<close>

definition repeated_keyword :: "string list \<Rightarrow> 'v kwargs \<Rightarrow> bool" where
  "repeated_keyword names kw = list_ex (\<lambda>n. n \<in> set (map fst kw)) names"

section \<open>Progress events and the progress manager (encore/events/progress\_events.py)\<close>

text \<open>
  The three event classes, by the keyword arguments they are built from: source,
  operation id, message, then \<open>steps\<close>, \<open>step\<close> or \<open>exit_state\<close>, then the extra
  keywords. Source, operation id and the extra values are arbitrary objects. The
  classes derive from \<^verbatim>\<open>BaseEvent\<close> (encore/events/abstract\_event\_manager.py, not
  among the sources), which is taken to accept any keywords.
\<close>

datatype ('s, 'i, 'v) event =
    ProgressStartEvent 's 'i string int "'v kwargs"
  | ProgressStepEvent 's 'i string int "'v kwargs"
  | ProgressEndEvent 's 'i string string "'v kwargs"

text \<open>
  The manager's attributes. \<open>event_manager\<close> is the channel the manager emits on, kept
  as the list of the events handed to \<^verbatim>\<open>emit\<close> so far (delivery to listeners is the
  channel's own work, and \<^verbatim>\<open>emit\<close> is taken to return); \<open>step_count\<close> and \<open>running\<close>
  are \<^verbatim>\<open>_step_count\<close> and \<^verbatim>\<open>_running\<close>.
\<close>

record ('s, 'i, 'v) ProgressManager =
  event_manager :: "('s, 'i, 'v) event list"
  source :: 's
  operation_id :: 'i
  message :: string
  steps :: int
  kwargs :: "'v kwargs"
  step_count :: int
  running :: bool

text \<open>
  A method returns its result, or the exception it raised, together with the object as
  the call left it: an assignment made before a raise stays made.
\<close>

type_synonym ('a, 's, 'i, 'v) outcome = "(error + 'a) \<times> ('s, 'i, 'v) ProgressManager"

definition emit ::
  "('s, 'i, 'v) ProgressManager \<Rightarrow> ('s, 'i, 'v) event \<Rightarrow> ('s, 'i, 'v) ProgressManager" where
  "emit self ev = self\<lparr>event_manager := event_manager self @ [ev]\<rparr>"

text \<open>
  \<^verbatim>\<open>__init__(self, event_manager, source, operation_id, message, steps, **kwargs)\<close>.
  A keyword that repeats one of the named parameters is rejected by the call itself.
\<close>

definition init_parameters :: "string list" where
  "init_parameters =
     [''self'', ''event_manager'', ''source'', ''operation_id'', ''message'', ''steps'']"

definition ProgressManager_init ::
  "('s, 'i, 'v) event list \<Rightarrow> 's \<Rightarrow> 'i \<Rightarrow> string \<Rightarrow> int \<Rightarrow> 'v kwargs \<Rightarrow>
     error + ('s, 'i, 'v) ProgressManager" where
  "ProgressManager_init em src oid msg n kw =
     (if repeated_keyword init_parameters kw
      then Inl (TypeError ''__init__() got multiple values for keyword argument'')
      else Inr \<lparr>event_manager = em, source = src, operation_id = oid, message = msg,
                steps = n, kwargs = kw, step_count = 0, running = False\<rparr>)"

definition start ::
  "('s, 'i, 'v) ProgressManager \<Rightarrow> 'v kwargs \<Rightarrow> (unit, 's, 'i, 'v) outcome" where
  "start self extra_kwargs =
     (let self = self\<lparr>running := True\<rparr>;
          kw = dict_update (kwargs self) extra_kwargs
      in if repeated_keyword [''source'', ''operation_id'', ''message'', ''steps''] kw
         then (Inl (TypeError ''got multiple values for keyword argument''), self)
         else (Inr (), emit self
                 (ProgressStartEvent (source self) (operation_id self) (message self)
                    (steps self) kw)))"

definition step ::
  "('s, 'i, 'v) ProgressManager \<Rightarrow> string option \<Rightarrow> int option \<Rightarrow> 'v kwargs \<Rightarrow>
     (unit, 's, 'i, 'v) outcome" where
  "step self msg stp extra_kwargs =
     (if \<not> running self
      then (Inl (Exception ''ProgressManager.step() called before start()''), self)
      else
        let msg' = (case msg of None \<Rightarrow> message self | Some m \<Rightarrow> m);
            stp' = (case stp of None \<Rightarrow> step_count self | Some n \<Rightarrow> n);
            kw = dict_update (kwargs self) extra_kwargs
        in if repeated_keyword [''source'', ''operation_id'', ''message'', ''step''] kw
           then (Inl (TypeError ''got multiple values for keyword argument''), self)
           else
             let self = emit self
                   (ProgressStepEvent (source self) (operation_id self) msg' stp' kw)
             in (Inr (), self\<lparr>step_count := step_count self + 1\<rparr>))"

text \<open>\<open>end\<close> of the source; the word is reserved in a theory.\<close>

definition end_progress ::
  "('s, 'i, 'v) ProgressManager \<Rightarrow> string option \<Rightarrow> string \<Rightarrow> 'v kwargs \<Rightarrow>
     (unit, 's, 'i, 'v) outcome" where
  "end_progress self msg exit_state extra_kwargs =
     (if \<not> running self
      then (Inl (Exception ''ProgressManager.end() called before start()''), self)
      else
        let msg' = (case msg of None \<Rightarrow> message self | Some m \<Rightarrow> m);
            kw = dict_update (kwargs self) extra_kwargs
        in if repeated_keyword [''source'', ''operation_id'', ''message'', ''exit_state''] kw
           then (Inl (TypeError ''got multiple values for keyword argument''), self)
           else
             let self = emit self
                   (ProgressEndEvent (source self) (operation_id self) msg' exit_state kw)
             in (Inr (), self\<lparr>running := False\<rparr>))"

text \<open>\<^verbatim>\<open>__call__\<close>: start when not running, then one step.\<close>

definition call ::
  "('s, 'i, 'v) ProgressManager \<Rightarrow> string option \<Rightarrow> int option \<Rightarrow> 'v kwargs \<Rightarrow>
     (unit, 's, 'i, 'v) outcome" where
  "call self msg stp extra_kwargs =
     (if \<not> running self
      then (case start self [] of
              (Inl e, self') \<Rightarrow> (Inl e, self')
            | (Inr _, self') \<Rightarrow> step self' msg stp extra_kwargs)
      else step self msg stp extra_kwargs)"

text \<open>\<^verbatim>\<open>__enter__\<close> returns the manager itself: the state returned is that handle.\<close>

definition enter :: "('s, 'i, 'v) ProgressManager \<Rightarrow> (unit, 's, 'i, 'v) outcome" where
  "enter self = (if \<not> running self then start self [] else (Inr (), self))"

text \<open>
  \<^verbatim>\<open>__exit__(self, exc_type, exc_value, exc_traceback)\<close>. The method reads \<open>exc_value\<close>
  twice: whether it is None, and its text \<^verbatim>\<open>str(exc_value)\<close>; so the argument here is
  None, or that text. The method has no return statement: it returns None, which tells
  the with statement not to suppress the block's exception.
\<close>

definition exit ::
  "('s, 'i, 'v) ProgressManager \<Rightarrow> string option \<Rightarrow> (unit, 's, 'i, 'v) outcome" where
  "exit self exc_value =
     (if running self
      then (case exc_value of
              Some text \<Rightarrow> end_progress self (Some text) ''exception'' []
            | None \<Rightarrow> end_progress self None ''normal'' [])
      else (Inr (), self))"

text \<open>
  The with statement, \<^verbatim>\<open>with manager as progress: block\<close>. The block is any code that
  works on the handle and returns a value or raises an exception \<open>x\<close> whose text is
  \<open>str x\<close>. What reaches the caller is the block's value, the block's own exception
  (\<open>Original\<close>) when \<^verbatim>\<open>__exit__\<close> returned, or the exception \<^verbatim>\<open>__enter__\<close> or
  \<^verbatim>\<open>__exit__\<close> raised itself (\<open>Replaced\<close>).
\<close>

datatype 'x propagated = Original 'x | Replaced error

definition with_progress ::
  "('s, 'i, 'v) ProgressManager \<Rightarrow> ('x \<Rightarrow> string) \<Rightarrow>
     (('s, 'i, 'v) ProgressManager \<Rightarrow> ('x + 'a) \<times> ('s, 'i, 'v) ProgressManager) \<Rightarrow>
     ('x propagated + 'a) \<times> ('s, 'i, 'v) ProgressManager" where
  "with_progress self str block =
     (case enter self of
        (Inl e, s1) \<Rightarrow> (Inl (Replaced e), s1)
      | (Inr _, s1) \<Rightarrow>
          (case block s1 of
             (Inr v, s2) \<Rightarrow>
               (case exit s2 None of
                  (Inl e, s3) \<Rightarrow> (Inl (Replaced e), s3)
                | (Inr _, s3) \<Rightarrow> (Inr v, s3))
           | (Inl x, s2) \<Rightarrow>
               (case exit s2 (Some (str x)) of
                  (Inl e, s3) \<Rightarrow> (Inl (Replaced e), s3)
                | (Inr _, s3) \<Rightarrow> (Inl (Original x), s3))))"

text \<open>
  A sequence of calls on one manager, \<^verbatim>\<open>m1(); m2(); ...\<close>: each works on the state the
  one before left, and the first exception ends the sequence.
\<close>

fun run ::
  "(('s, 'i, 'v) ProgressManager \<Rightarrow> (unit, 's, 'i, 'v) outcome) list \<Rightarrow>
     ('s, 'i, 'v) ProgressManager \<Rightarrow> (unit, 's, 'i, 'v) outcome" where
  "run [] self = (Inr (), self)"
| "run (m # ms) self =
     (case m self of
        (Inl e, self') \<Rightarrow> (Inl e, self')
      | (Inr _, self') \<Rightarrow> run ms self')"

text \<open>
  The constructor's signature keeps its parameters' names out of \<open>kwargs\<close>; no method
  assigns \<open>kwargs\<close> afterwards.
\<close>

definition constructed :: "('s, 'i, 'v) ProgressManager \<Rightarrow> bool" where
  "constructed self = (\<not> repeated_keyword init_parameters (kwargs self))"

text \<open>
  A list of calls to \<open>step\<close>, each given by its arguments (message, step, extra
  keywords), and the condition under which the event of such a call can be built: the
  merged keywords repeat none of the four the call writes out.
\<close>

definition step_calls ::
  "(string option \<times> int option \<times> 'v kwargs) list \<Rightarrow>
     (('s, 'i, 'v) ProgressManager \<Rightarrow> (unit, 's, 'i, 'v) outcome) list" where
  "step_calls cs = map (\<lambda>(msg, stp, extra) self. step self msg stp extra) cs"

definition keywords_distinct ::
  "'v kwargs \<Rightarrow> (string option \<times> int option \<times> 'v kwargs) \<Rightarrow> bool" where
  "keywords_distinct kw c =
     (\<not> repeated_keyword [''source'', ''operation_id'', ''message'', ''step'']
          (dict_update kw (snd (snd c))))"

text \<open>Managers used as concrete inputs below.\<close>

definition idle_manager :: "(unit, nat, int) ProgressManager" where
  "idle_manager = \<lparr>event_manager = [], source = (), operation_id = 7,
     message = ''copying'', steps = 2, kwargs = [(''user'', 1)], step_count = 0,
     running = False\<rparr>"

definition step_keyword_manager :: "(unit, nat, int) ProgressManager" where
  "step_keyword_manager = \<lparr>event_manager = [], source = (), operation_id = 7,
     message = ''copying'', steps = 2, kwargs = [(''step'', 5)], step_count = 0,
     running = False\<rparr>"

definition exit_keyword_manager :: "(unit, nat, int) ProgressManager" where
  "exit_keyword_manager = \<lparr>event_manager = [], source = (), operation_id = 7,
     message = ''copying'', steps = 2, kwargs = [(''exit_state'', 5)], step_count = 0,
     running = False\<rparr>"

definition started_manager :: "(unit, nat, int) ProgressManager" where
  "started_manager = idle_manager\<lparr>running := True,
     event_manager := [ProgressStartEvent () 7 ''copying'' 2 [(''user'', 1)]]\<rparr>"

definition three_calls :: "(string option \<times> int option \<times> int kwargs) list" where
  "three_calls =
     [(None, None, []), (Some ''half'', Some 40, [(''note'', 2)]), (None, Some 7, [])]"

text \<open>
  A protected block for the with statement: it makes one step, then fails with an
  exception whose text is \<open>disk full\<close>.
\<close>

definition failing_block ::
  "(unit, nat, int) ProgressManager \<Rightarrow> (string + unit) \<times> (unit, nat, int) ProgressManager" where
  "failing_block progress =
     (case step progress None None [] of
        (Inl e, p) \<Rightarrow> (Inl ''step failed'', p)
      | (Inr _, p) \<Rightarrow> (Inl ''disk full'', p))"

section \<open>The sqlite store (encore/storage/sqlite\_store.py)\<close>

text \<open>
  Metadata values are scalars here: None, booleans, integers and strings. \<open>py_eq\<close> is
  Python's \<^verbatim>\<open>==\<close> on them (a boolean equals the integer 0 or 1 it stands for).
\<close>

datatype pyval = PNone | PBool bool | PInt int | PStr string

fun py_eq :: "pyval \<Rightarrow> pyval \<Rightarrow> bool" where
  "py_eq (PBool b) (PInt i) = ((if b then 1 else 0) = i)"
| "py_eq (PInt i) (PBool b) = (i = (if b then 1 else 0))"
| "py_eq a b = (a = b)"

type_synonym metadata = "string \<rightharpoonup> pyval"

text \<open>\<^verbatim>\<open>metadata.get(arg)\<close>: None when the field is absent.\<close>

definition dict_get :: "metadata \<Rightarrow> string \<Rightarrow> pyval" where
  "dict_get m arg = (case m arg of None \<Rightarrow> PNone | Some v \<Rightarrow> v)"

text \<open>\<^verbatim>\<open>dict(pairs)\<close>: a later pair replaces an earlier one with the same key.\<close>

definition dict_put :: "string \<times> pyval \<Rightarrow> metadata \<Rightarrow> metadata" where
  "dict_put pair m = m(fst pair \<mapsto> snd pair)"

definition dict_of :: "(string \<times> pyval) list \<Rightarrow> metadata" where
  "dict_of pairs = fold dict_put pairs Map.empty"

text \<open>
  \<^verbatim>\<open>dict((metadata_key, metadata[metadata_key]) for metadata_key in select
        if metadata_key in metadata)\<close>
\<close>

definition select_fields :: "metadata \<Rightarrow> string list \<Rightarrow> metadata" where
  "select_fields m select =
     dict_of (List.map_filter (\<lambda>metadata_key. map_option (Pair metadata_key) (m metadata_key))
                select)"

text \<open>
  A row of the table: key, metadata and data. The metadata column is declared \<open>dict\<close>:
  the registered adapter pickles it on the way in, the converter unpickles it on the way
  out, so a row is kept with the dictionary itself.
\<close>

type_synonym row = "string \<times> metadata \<times> string"

text \<open>
  The events of the store's channel: the source is the store (named by its location and
  table), operation ids are fresh identifiers nobody reads (written \<open>()\<close>), and the
  extra keywords are \<open>key\<close> and \<open>metadata\<close>.
\<close>

datatype keyword_value = Key string | Metadata "metadata option"

type_synonym store_event = "(string \<times> string, unit, keyword_value) event"

text \<open>
  The store's attributes. \<open>connection\<close> is \<^verbatim>\<open>_connection\<close>: None, or the open
  connection, given by the rows of the store's table in scan order (the state
  \<^verbatim>\<open>connect\<close> leaves when the table exists). \<open>attr_data\<close> and \<open>attr_metadata\<close> are
  the attributes \<^verbatim>\<open>_data\<close> and \<^verbatim>\<open>_metadata\<close> that several methods read: None
  when the attribute was never assigned, else the dictionary it holds.
\<close>

record SqliteStore =
  store_event_manager :: "store_event list"
  location :: string
  table :: string
  connection :: "row list option"
  attr_data :: "(string \<rightharpoonup> string) option"
  attr_metadata :: "(string \<rightharpoonup> metadata) option"

text \<open>
  \<^verbatim>\<open>__init__\<close> assigns \<open>event_manager\<close>, \<open>location\<close>, \<open>table\<close> and \<open>_connection\<close>, and
  nothing else; no method of the class assigns \<^verbatim>\<open>_data\<close> or \<^verbatim>\<open>_metadata\<close>.
\<close>

definition SqliteStore_init :: "store_event list \<Rightarrow> string \<Rightarrow> string \<Rightarrow> SqliteStore" where
  "SqliteStore_init em loc tbl =
     \<lparr>store_event_manager = em, location = loc, table = tbl, connection = None,
      attr_data = None, attr_metadata = None\<rparr>"

text \<open>
  \<^verbatim>\<open>select ... where key == ?\<close>, then \<^verbatim>\<open>fetchall()\<close>. Calling \<^verbatim>\<open>execute\<close> on a
  store that is not connected is an AttributeError (None has no such method).
\<close>

definition rows_of_key :: "row list \<Rightarrow> string \<Rightarrow> row list" where
  "rows_of_key rows key = filter (\<lambda>(k, m, d). k = key) rows"

definition get :: "SqliteStore \<Rightarrow> string \<Rightarrow> error + (string \<times> metadata)" where
  "get self key =
     (case connection self of
        None \<Rightarrow> Inl (AttributeError ''execute'')
      | Some rows \<Rightarrow>
          (case rows_of_key rows key of
             [] \<Rightarrow> Inl (KeyError key)
           | (k, metadata, data) # _ \<Rightarrow> Inr (data, metadata)))"

definition get_metadata ::
  "SqliteStore \<Rightarrow> string \<Rightarrow> string list option \<Rightarrow> error + metadata" where
  "get_metadata self key select =
     (case connection self of
        None \<Rightarrow> Inl (AttributeError ''execute'')
      | Some rows \<Rightarrow>
          (case rows_of_key rows key of
             [] \<Rightarrow> Inl (KeyError key)
           | (k, metadata, data) # _ \<Rightarrow>
               (case select of
                  Some sel \<Rightarrow> Inr (select_fields metadata sel)
                | None \<Rightarrow> Inr metadata)))"

text \<open>
  \<open>query\<close> is a generator; its result here is the list of what it yields. The two
  loops of the source, one for each case of \<open>select\<close>, run over the cursor's rows.
\<close>

definition matches :: "pyval kwargs \<Rightarrow> metadata \<Rightarrow> bool" where
  "matches kw m = list_all (\<lambda>(arg, v). py_eq (dict_get m arg) v) kw"

fun query_select :: "string list \<Rightarrow> pyval kwargs \<Rightarrow> row list \<Rightarrow> (string \<times> metadata) list" where
  "query_select sel kw [] = []"
| "query_select sel kw ((key, m, d) # cursor) =
     (if matches kw m then (key, select_fields m sel) # query_select sel kw cursor
      else query_select sel kw cursor)"

fun query_all :: "pyval kwargs \<Rightarrow> row list \<Rightarrow> (string \<times> metadata) list" where
  "query_all kw [] = []"
| "query_all kw ((key, m, d) # cursor) =
     (if matches kw m then (key, m) # query_all kw cursor else query_all kw cursor)"

definition query ::
  "SqliteStore \<Rightarrow> string list option \<Rightarrow> pyval kwargs \<Rightarrow> error + (string \<times> metadata) list" where
  "query self select kw =
     (case connection self of
        None \<Rightarrow> Inl (AttributeError ''execute'')
      | Some cursor \<Rightarrow>
          (case select of
             Some sel \<Rightarrow> Inr (query_select sel kw cursor)
           | None \<Rightarrow> Inr (query_all kw cursor)))"

text \<open>
  The methods below read \<^verbatim>\<open>self._data\<close> and \<^verbatim>\<open>self._metadata\<close>. They also name
  \<^verbatim>\<open>StoreSetEvent\<close>, \<^verbatim>\<open>StoreUpdateEvent\<close> and \<^verbatim>\<open>StoreDeleteEvent\<close>, which the
  module neither defines nor imports: evaluating such a name is a NameError, raised
  after the statements before it have run.
\<close>

definition exists :: "SqliteStore \<Rightarrow> string \<Rightarrow> error + bool" where
  "exists self key =
     (case attr_data self of
        None \<Rightarrow> Inl (AttributeError ''_data'')
      | Some d \<Rightarrow>
          if d key = None then Inr False
          else (case attr_metadata self of
                  None \<Rightarrow> Inl (AttributeError ''_metadata'')
                | Some md \<Rightarrow> Inr (md key \<noteq> None)))"

definition delete :: "SqliteStore \<Rightarrow> string \<Rightarrow> (error + unit) \<times> SqliteStore" where
  "delete self key =
     (case attr_data self of
        None \<Rightarrow> (Inl (AttributeError ''_data''), self)
      | Some d \<Rightarrow>
          if d key = None then (Inl (KeyError key), self)
          else
            let self = self\<lparr>attr_data := Some (d(key := None))\<rparr>
            in (case attr_metadata self of
                  None \<Rightarrow> (Inl (AttributeError ''_metadata''), self)
                | Some md \<Rightarrow>
                    if md key = None then (Inl (KeyError key), self)
                    else (Inl (NameError ''StoreDeleteEvent''),
                          self\<lparr>attr_metadata := Some (md(key := None))\<rparr>)))"

text \<open>
  Modelled from the spec: \<^verbatim>\<open>buffer_iterator\<close> is imported from
  encore/storage/utils.py, which is not among the sources. By the spec a streaming set
  reads its source in chunks of \<open>buffer_size\<close> bytes; \<open>chunks\<close> cuts the data into such
  pieces.
\<close>

function chunks :: "nat \<Rightarrow> string \<Rightarrow> string list" where
  "chunks n data =
     (if n = 0 \<or> data = [] then [] else take n data # chunks n (drop n data))"
  by pat_completeness auto
termination
  by (relation "measure (\<lambda>(n, data). length data)") auto

text \<open>
  Modelled from the spec: \<^verbatim>\<open>StoreProgressManager\<close> is imported from
  encore/storage/utils.py, which is not among the sources. By the spec the streaming
  set drives a progress operation that is advanced once per chunk read.
  \<open>stream_with_progress\<close> is the with block of \<open>set_data\<close>: it gives the chunks read
  and the channel after the Start event, one Step event per chunk and the End event.
\<close>

definition stream_with_progress ::
  "SqliteStore \<Rightarrow> string \<Rightarrow> metadata option \<Rightarrow> string \<Rightarrow> nat \<Rightarrow>
     string list \<times> store_event list" where
  "stream_with_progress self key metadata data buffer_size =
     (let cs = chunks buffer_size data;
          src = (location self, table self);
          msg = ''Setting data into '' @ [CHR 0x27] @ key @ [CHR 0x27];
          kw = [(''key'', Key key), (''metadata'', Metadata metadata)]
      in (cs,
          store_event_manager self
            @ [ProgressStartEvent src () msg (- 1) kw]
            @ map (\<lambda>i. ProgressStepEvent src () msg (int i) kw) [0..<length cs]
            @ [ProgressEndEvent src () msg ''normal'' kw]))"

definition set_data ::
  "SqliteStore \<Rightarrow> string \<Rightarrow> string \<Rightarrow> nat \<Rightarrow> (error + unit) \<times> SqliteStore" where
  "set_data self key data buffer_size =
     (case attr_data self of
        None \<Rightarrow> (Inl (AttributeError ''_data''), self)
      | Some d \<Rightarrow>
          (case attr_metadata self of
             None \<Rightarrow> (Inl (AttributeError ''_metadata''), self)
           | Some md \<Rightarrow>
               let update = (d key \<noteq> None);
                   metadata = md key;
                   (cs, em) = stream_with_progress self key metadata data buffer_size;
                   self = self\<lparr>store_event_manager := em,
                               attr_data := Some (d(key \<mapsto> concat cs))\<rparr>
               in (Inl (NameError (if update then ''StoreUpdateEvent'' else ''StoreSetEvent'')),
                   self)))"

text \<open>\<open>set\<close> of the source; the name \<open>set\<close> is taken in HOL.\<close>

definition set_value ::
  "SqliteStore \<Rightarrow> string \<Rightarrow> string \<times> metadata \<Rightarrow> nat \<Rightarrow> (error + unit) \<times> SqliteStore" where
  "set_value self key v buffer_size =
     (case v of (data, metadata) \<Rightarrow>
        (case attr_metadata self of
           None \<Rightarrow> (Inl (AttributeError ''_metadata''), self)
         | Some md \<Rightarrow>
             set_data (self\<lparr>attr_metadata := Some (md(key \<mapsto> metadata))\<rparr>) key data
               buffer_size))"

definition set_metadata ::
  "SqliteStore \<Rightarrow> string \<Rightarrow> metadata \<Rightarrow> (error + unit) \<times> SqliteStore" where
  "set_metadata self key metadata =
     (case attr_metadata self of
        None \<Rightarrow> (Inl (AttributeError ''_metadata''), self)
      | Some md \<Rightarrow>
          let update = (md key \<noteq> None);
              self = self\<lparr>attr_metadata := Some (md(key \<mapsto> metadata))\<rparr>
          in (Inl (NameError (if update then ''StoreUpdateEvent'' else ''StoreSetEvent'')),
              self))"

definition update_metadata ::
  "SqliteStore \<Rightarrow> string \<Rightarrow> metadata \<Rightarrow> (error + unit) \<times> SqliteStore" where
  "update_metadata self key metadata =
     (case attr_metadata self of
        None \<Rightarrow> (Inl (AttributeError ''_metadata''), self)
      | Some md \<Rightarrow>
          (case md key of
             None \<Rightarrow> (Inl (KeyError key), self)
           | Some old \<Rightarrow>
               (Inl (NameError ''StoreUpdateEvent''),
                self\<lparr>attr_metadata := Some (md(key \<mapsto> old ++ metadata))\<rparr>)))"

text \<open>
  Modelled from the spec: the batch methods of the source only call the methods of the
  same names of \<^verbatim>\<open>AbstractStore\<close> (encore/storage/abstract\_store.py), which is not
  among the sources. By the spec the generic operations pair their inputs positionally,
  drop the excess tail of the longer sequence, and call the singular operation once per
  pair; a failure of one element propagates, the earlier elements stay set.
  \<open>for_each_pair\<close> is that loop.
\<close>

fun for_each_pair ::
  "(SqliteStore \<Rightarrow> string \<Rightarrow> 'a \<Rightarrow> (error + unit) \<times> SqliteStore) \<Rightarrow>
     SqliteStore \<Rightarrow> string list \<Rightarrow> 'a list \<Rightarrow> (error + unit) \<times> SqliteStore" where
  "for_each_pair f self (key # keys) (v # vals) =
     (case f self key v of
        (Inl e, self') \<Rightarrow> (Inl e, self')
      | (Inr _, self') \<Rightarrow> for_each_pair f self' keys vals)"
| "for_each_pair f self _ _ = (Inr (), self)"

text \<open>
  Modelled from the spec: \<^verbatim>\<open>AbstractStore.multiset\<close>, the loop over \<open>set\<close>.
\<close>

definition multiset ::
  "SqliteStore \<Rightarrow> string list \<Rightarrow> (string \<times> metadata) list \<Rightarrow> nat \<Rightarrow>
     (error + unit) \<times> SqliteStore" where
  "multiset self keys vals buffer_size =
     for_each_pair (\<lambda>s key v. set_value s key v buffer_size) self keys vals"

text \<open>
  Modelled from the spec: \<^verbatim>\<open>AbstractStore.multiset_data\<close>, the loop over \<open>set_data\<close>.
\<close>

definition multiset_data ::
  "SqliteStore \<Rightarrow> string list \<Rightarrow> string list \<Rightarrow> nat \<Rightarrow> (error + unit) \<times> SqliteStore" where
  "multiset_data self keys datas buffer_size =
     for_each_pair (\<lambda>s key data. set_data s key data buffer_size) self keys datas"

text \<open>
  Modelled from the spec: \<^verbatim>\<open>AbstractStore.multiset_metadata\<close>, the loop over
  \<open>set_metadata\<close>.
\<close>

definition multiset_metadata ::
  "SqliteStore \<Rightarrow> string list \<Rightarrow> metadata list \<Rightarrow> (error + unit) \<times> SqliteStore" where
  "multiset_metadata self keys metadatas = for_each_pair set_metadata self keys metadatas"

text \<open>
  Modelled from the spec: \<^verbatim>\<open>AbstractStore.multiupdate_metadata\<close>, the loop over
  \<open>update_metadata\<close>.
\<close>

definition multiupdate_metadata ::
  "SqliteStore \<Rightarrow> string list \<Rightarrow> metadata list \<Rightarrow> (error + unit) \<times> SqliteStore" where
  "multiupdate_metadata self keys metadatas =
     for_each_pair update_metadata self keys metadatas"

text \<open>
  Stores as the constructor leaves them, with an open connection to a database whose
  table is empty, holds two rows, or holds one row for the key \<open>report\<close>.
\<close>

definition empty_store :: SqliteStore where
  "empty_store = (SqliteStore_init [] ''store.db'' ''store'')\<lparr>connection := Some []\<rparr>"

definition status_store :: SqliteStore where
  "status_store = (SqliteStore_init [] ''store.db'' ''store'')
     \<lparr>connection := Some
        [(''report'', [''status'' \<mapsto> PStr ''done'', ''size'' \<mapsto> PInt 3], ''abc''),
         (''draft'', [''status'' \<mapsto> PStr ''pending''], ''xy'')]\<rparr>"

definition report_store :: SqliteStore where
  "report_store = (SqliteStore_init [] ''store.db'' ''store'')
     \<lparr>connection := Some [(''report'', [''status'' \<mapsto> PStr ''done''], ''abc'')]\<rparr>"

section \<open>The state machine of a progress operation\<close>

lemma dict_update_Nil: "dict_update d [] = d"
  by (simp add: dict_update_def)

lemma repeated_keyword_Cons:
  "repeated_keyword (n # ns) kw = (n \<in> fst ` set kw \<or> repeated_keyword ns kw)"
  by (simp add: repeated_keyword_def)

lemma init_constructed:
  "ProgressManager_init em src oid msg n kw = Inr self \<Longrightarrow> constructed self"
  by (auto simp: ProgressManager_init_def constructed_def split: if_splits)

lemma init_idle:
  "ProgressManager_init [] () 7 ''copying'' 2 [(''user'', 1)] = Inr idle_manager"
  by (simp add: ProgressManager_init_def idle_manager_def repeated_keyword_def
      init_parameters_def)

lemma start_names_free:
  "constructed self \<Longrightarrow>
     \<not> repeated_keyword [''source'', ''operation_id'', ''message'', ''steps''] (kwargs self)"
  by (simp add: constructed_def init_parameters_def repeated_keyword_Cons)

lemma start_returns:
  assumes "\<not> repeated_keyword [''source'', ''operation_id'', ''message'', ''steps'']
           (dict_update (kwargs self) extra)"
  shows "start self extra =
     (Inr (), self\<lparr>running := True, event_manager := event_manager self @
         [ProgressStartEvent (source self) (operation_id self) (message self) (steps self)
            (dict_update (kwargs self) extra)]\<rparr>)"
  using assms by (simp add: start_def Let_def emit_def)

lemma step_returns:
  assumes "running self"
    and "\<not> repeated_keyword [''source'', ''operation_id'', ''message'', ''step'']
           (dict_update (kwargs self) extra)"
  shows "step self msg stp extra =
     (Inr (), self\<lparr>event_manager := event_manager self @
         [ProgressStepEvent (source self) (operation_id self)
            (case msg of None \<Rightarrow> message self | Some m \<Rightarrow> m)
            (case stp of None \<Rightarrow> step_count self | Some n \<Rightarrow> n)
            (dict_update (kwargs self) extra)],
        step_count := step_count self + 1\<rparr>)"
  using assms by (simp add: step_def Let_def emit_def)

lemma end_returns:
  assumes "running self"
    and "\<not> repeated_keyword [''source'', ''operation_id'', ''message'', ''exit_state'']
           (dict_update (kwargs self) extra)"
  shows "end_progress self msg exit_state extra =
     (Inr (), self\<lparr>event_manager := event_manager self @
         [ProgressEndEvent (source self) (operation_id self)
            (case msg of None \<Rightarrow> message self | Some m \<Rightarrow> m) exit_state
            (dict_update (kwargs self) extra)],
        running := False\<rparr>)"
  using assms by (simp add: end_progress_def Let_def emit_def)

text \<open>No method assigns \<open>kwargs\<close>: a constructed manager stays one.\<close>

lemma methods_keep_kwargs:
  "kwargs (snd (start self extra)) = kwargs self"
  "kwargs (snd (step self msg stp extra)) = kwargs self"
  "kwargs (snd (end_progress self msg exit_state extra)) = kwargs self"
  by (simp_all add: start_def step_def end_progress_def Let_def emit_def)

text \<open>
  C4. On an operation that is not running, \<open>step\<close> and \<open>end\<close> both raise the
  invalid-state exception and leave the operation and the channel as they were (no
  event is emitted); on a running operation neither raises that exception.
\<close>

theorem step_end_require_running:
  "(\<not> running self \<longrightarrow>
      step self msg stp extra =
        (Inl (Exception ''ProgressManager.step() called before start()''), self)
    \<and> end_progress self msg exit_state extra =
        (Inl (Exception ''ProgressManager.end() called before start()''), self))
   \<and> (running self \<longrightarrow>
      (\<forall>text. fst (step self msg stp extra) \<noteq> Inl (Exception text))
    \<and> (\<forall>text. fst (end_progress self msg exit_state extra) \<noteq> Inl (Exception text)))"
  by (simp add: step_def end_progress_def Let_def)

theorem step_end_require_running_witness:
  "step idle_manager None None [] =
     (Inl (Exception ''ProgressManager.step() called before start()''), idle_manager)
   \<and> end_progress idle_manager None ''normal'' [] =
     (Inl (Exception ''ProgressManager.end() called before start()''), idle_manager)
   \<and> (\<forall>text. fst (step (idle_manager\<lparr>running := True\<rparr>) None None [])
         \<noteq> Inl (Exception text))
   \<and> (\<forall>text. fst (end_progress (idle_manager\<lparr>running := True\<rparr>) None ''normal'' [])
         \<noteq> Inl (Exception text))"
  using step_end_require_running [of idle_manager None None "[]" "''normal''"]
    step_end_require_running [of "idle_manager\<lparr>running := True\<rparr>" None None "[]" "''normal''"]
  by (simp add: idle_manager_def)

text \<open>
  C9. \<open>start()\<close> on a constructed manager, in whatever state, returns: the manager is
  running afterwards and one Start event was emitted. Two calls in a row, with no
  \<open>end\<close> between them, emit two Start events.
\<close>

theorem start_never_raises:
  assumes "constructed self"
  shows "start self [] =
           (Inr (), self\<lparr>running := True,
              event_manager := event_manager self @
                [ProgressStartEvent (source self) (operation_id self) (message self)
                   (steps self) (kwargs self)]\<rparr>)
         \<and> run [\<lambda>s. start s [], \<lambda>s. start s []] self =
           (Inr (), self\<lparr>running := True,
              event_manager := event_manager self @
                [ProgressStartEvent (source self) (operation_id self) (message self)
                   (steps self) (kwargs self),
                 ProgressStartEvent (source self) (operation_id self) (message self)
                   (steps self) (kwargs self)]\<rparr>)"
  using start_names_free [OF assms]
  by (simp add: start_def Let_def dict_update_Nil emit_def)

theorem start_never_raises_witness:
  "constructed (idle_manager\<lparr>running := True\<rparr>)
   \<and> start (idle_manager\<lparr>running := True\<rparr>) [] =
       (Inr (), idle_manager\<lparr>running := True,
          event_manager := [ProgressStartEvent () 7 ''copying'' 2 [(''user'', 1)]]\<rparr>)
   \<and> run [\<lambda>s. start s [], \<lambda>s. start s []] idle_manager =
       (Inr (), idle_manager\<lparr>running := True,
          event_manager := [ProgressStartEvent () 7 ''copying'' 2 [(''user'', 1)],
                            ProgressStartEvent () 7 ''copying'' 2 [(''user'', 1)]]\<rparr>)"
proof -
  have c: "constructed idle_manager"
    by (rule init_constructed [OF init_idle])
  then have c': "constructed (idle_manager\<lparr>running := True\<rparr>)"
    by (simp add: constructed_def)
  show ?thesis
    using c' start_never_raises [OF c] start_never_raises [OF c']
    by (simp add: idle_manager_def del: run.simps)
qed

text \<open>
  C5 (as amended). For a manager just constructed whose extra keywords include neither
  \<open>step\<close> nor \<open>exit_state\<close>, the calls \<open>start(); step(); step(); end()\<close> all return
  and emit exactly four events: Start, Step with step 0, Step with step 1, End with
  exit state \<open>normal\<close>. The counter starts at 0 and is incremented after each emission.
\<close>

theorem well_formed_block:
  assumes "ProgressManager_init em src oid msg n kw = Inr self"
    and "\<not> repeated_keyword [''step'', ''exit_state''] kw"
  shows "run [\<lambda>s. start s [], \<lambda>s. step s None None [], \<lambda>s. step s None None [],
              \<lambda>s. end_progress s None ''normal'' []] self =
     (Inr (), self\<lparr>step_count := 2,
        event_manager := em @
          [ProgressStartEvent src oid msg n kw,
           ProgressStepEvent src oid msg 0 kw,
           ProgressStepEvent src oid msg 1 kw,
           ProgressEndEvent src oid msg ''normal'' kw]\<rparr>)"
proof -
  have free: "\<not> repeated_keyword init_parameters kw"
    using assms(1) by (auto simp: ProgressManager_init_def split: if_splits)
  have self: "self = \<lparr>event_manager = em, source = src, operation_id = oid, message = msg,
                steps = n, kwargs = kw, step_count = 0, running = False\<rparr>"
    using assms(1) by (auto simp: ProgressManager_init_def split: if_splits)
  have k1: "\<not> repeated_keyword [''source'', ''operation_id'', ''message'', ''steps''] kw"
    using free by (simp add: init_parameters_def repeated_keyword_Cons)
  have k2: "\<not> repeated_keyword [''source'', ''operation_id'', ''message'', ''step''] kw"
    using free assms(2) by (simp add: init_parameters_def repeated_keyword_Cons)
  have k3: "\<not> repeated_keyword [''source'', ''operation_id'', ''message'', ''exit_state''] kw"
    using free assms(2) by (simp add: init_parameters_def repeated_keyword_Cons)
  show ?thesis
    unfolding self
    by (simp add: start_returns step_returns end_returns dict_update_Nil k1 k2 k3)
qed

theorem well_formed_block_witness:
  "run [\<lambda>s. start s [], \<lambda>s. step s None None [], \<lambda>s. step s None None [],
        \<lambda>s. end_progress s None ''normal'' []] idle_manager =
     (Inr (), idle_manager\<lparr>step_count := 2,
        event_manager :=
          [ProgressStartEvent () 7 ''copying'' 2 [(''user'', 1)],
           ProgressStepEvent () 7 ''copying'' 0 [(''user'', 1)],
           ProgressStepEvent () 7 ''copying'' 1 [(''user'', 1)],
           ProgressEndEvent () 7 ''copying'' ''normal'' [(''user'', 1)]]\<rparr>)"
  using well_formed_block [OF init_idle]
  by (simp add: repeated_keyword_def)

text \<open>
  C5 as stated fails for a manager constructed with an extra keyword named \<open>step\<close>,
  \<^verbatim>\<open>ProgressManager(em, source, 7, "copying", 2, step=5)\<close>: \<open>start()\<close> emits the Start
  event, the first \<open>step()\<close> builds its event with \<open>step\<close> given twice and raises
  TypeError. One event was emitted, not four.
\<close>

theorem well_formed_block_counterexample:
  "ProgressManager_init [] () 7 ''copying'' 2 [(''step'', 5)] = Inr step_keyword_manager
   \<and> run [\<lambda>s. start s [], \<lambda>s. step s None None [], \<lambda>s. step s None None [],
           \<lambda>s. end_progress s None ''normal'' []] step_keyword_manager =
       (Inl (TypeError ''got multiple values for keyword argument''),
        step_keyword_manager\<lparr>running := True,
          event_manager := [ProgressStartEvent () 7 ''copying'' 2 [(''step'', 5)]]\<rparr>)
   \<and> length (event_manager (snd (run [\<lambda>s. start s [], \<lambda>s. step s None None [],
           \<lambda>s. step s None None [], \<lambda>s. end_progress s None ''normal'' []]
           step_keyword_manager))) = 1"
  by (simp add: ProgressManager_init_def step_keyword_manager_def init_parameters_def
      repeated_keyword_def start_def step_def Let_def emit_def dict_update_def)

lemma run_step_calls:
  "running self \<Longrightarrow> list_all (keywords_distinct (kwargs self)) cs \<Longrightarrow>
       fst (run (step_calls cs) self) = Inr ()
       \<and> running (snd (run (step_calls cs) self))
       \<and> kwargs (snd (run (step_calls cs) self)) = kwargs self
       \<and> source (snd (run (step_calls cs) self)) = source self
       \<and> operation_id (snd (run (step_calls cs) self)) = operation_id self
       \<and> message (snd (run (step_calls cs) self)) = message self
       \<and> step_count (snd (run (step_calls cs) self)) = step_count self + int (length cs)"
proof (induction cs arbitrary: self)
  case Nil
  then show ?case by (simp add: step_calls_def)
next
  case (Cons c cs)
  obtain msg stp extra where c: "c = (msg, stp, extra)" by (cases c)
  let ?s = "snd (step self msg stp extra)"
  have ok: "\<not> repeated_keyword [''source'', ''operation_id'', ''message'', ''step'']
                (dict_update (kwargs self) extra)"
    using Cons.prems(2) by (simp add: c keywords_distinct_def)
  note st = step_returns [OF Cons.prems(1) ok, of msg stp]
  have r: "running ?s" and k: "kwargs ?s = kwargs self"
    using Cons.prems(1) by (simp_all add: st)
  have rest: "list_all (keywords_distinct (kwargs ?s)) cs"
    using Cons.prems(2) by (simp add: k)
  have unfold: "run (step_calls (c # cs)) self = run (step_calls cs) ?s"
    by (simp add: step_calls_def c st)
  show ?case
    unfolding unfold using Cons.IH [OF r rest] by (simp add: st)
qed

text \<open>
  C10 (as amended). On a running manager, calls to \<open>step\<close> whose keywords (the
  constructor's, updated with the call's own) repeat none of \<open>source\<close>,
  \<open>operation_id\<close>, \<open>message\<close> and \<open>step\<close> all return, and each adds one to the counter
  whether or not it names a step number: after the calls \<open>cs\<close> the counter has grown by
  \<open>length cs\<close>. The next \<open>step()\<close> with no step number emits a Step event that carries
  that counter; for a manager started right after its construction this is the number
  of calls made.
\<close>

theorem step_counts_every_call:
  assumes "running self"
    and "list_all (keywords_distinct (kwargs self)) cs"
    and "keywords_distinct (kwargs self) (None, None, [])"
  shows "fst (run (step_calls cs) self) = Inr ()
       \<and> step_count (snd (run (step_calls cs) self)) = step_count self + int (length cs)
       \<and> step (snd (run (step_calls cs) self)) None None [] =
           (Inr (), (snd (run (step_calls cs) self))
              \<lparr>event_manager := event_manager (snd (run (step_calls cs) self)) @
                 [ProgressStepEvent (source self) (operation_id self) (message self)
                    (step_count self + int (length cs)) (kwargs self)],
               step_count := step_count self + int (length cs) + 1\<rparr>)"
proof -
  let ?s = "snd (run (step_calls cs) self)"
  note r = run_step_calls [OF assms(1,2)]
  have ok: "\<not> repeated_keyword [''source'', ''operation_id'', ''message'', ''step'']
                (dict_update (kwargs ?s) [])"
    using assms(3) r by (simp add: keywords_distinct_def)
  have run: "running ?s" using r by simp
  show ?thesis
    using r by (simp add: step_returns [OF run ok] dict_update_Nil)
qed

theorem step_counts_every_call_witness:
  "start idle_manager [] = (Inr (), started_manager)
   \<and> fst (run (step_calls three_calls) started_manager) = Inr ()
   \<and> step_count (snd (run (step_calls three_calls) started_manager)) = 3
   \<and> step (snd (run (step_calls three_calls) started_manager)) None None [] =
       (Inr (), (snd (run (step_calls three_calls) started_manager))
          \<lparr>event_manager := event_manager (snd (run (step_calls three_calls) started_manager)) @
             [ProgressStepEvent () 7 ''copying'' 3 [(''user'', 1)]],
           step_count := 4\<rparr>)"
proof -
  have s: "start idle_manager [] = (Inr (), started_manager)"
    by (simp add: start_def started_manager_def idle_manager_def Let_def emit_def
        dict_update_def repeated_keyword_def)
  have r: "running started_manager"
    by (simp add: started_manager_def)
  have k: "kwargs started_manager = [(''user'', 1)]"
    by (simp add: started_manager_def idle_manager_def)
  have d: "list_all (keywords_distinct (kwargs started_manager)) three_calls"
    by (simp add: k three_calls_def keywords_distinct_def dict_update_def
        repeated_keyword_def)
  have n: "keywords_distinct (kwargs started_manager) (None, None, [])"
    by (simp add: k keywords_distinct_def dict_update_def repeated_keyword_def)
  have f: "source started_manager = ()" "operation_id started_manager = 7"
    "message started_manager = ''copying''" "step_count started_manager = 0"
    "length three_calls = 3"
    by (simp_all add: started_manager_def idle_manager_def three_calls_def)
  show ?thesis
    using step_counts_every_call [OF r d n] by (simp add: s k f)
qed

text \<open>
  C10 as stated fails on a running manager constructed with an extra keyword named
  \<open>step\<close>: \<open>step()\<close> raises TypeError before the counter is touched, so the call does not
  increment it.
\<close>

theorem step_counts_every_call_counterexample:
  "ProgressManager_init [] () 7 ''copying'' 2 [(''step'', 5)] = Inr step_keyword_manager
   \<and> start step_keyword_manager [] =
       (Inr (), step_keyword_manager\<lparr>running := True,
          event_manager := [ProgressStartEvent () 7 ''copying'' 2 [(''step'', 5)]]\<rparr>)
   \<and> step (step_keyword_manager\<lparr>running := True,
          event_manager := [ProgressStartEvent () 7 ''copying'' 2 [(''step'', 5)]]\<rparr>)
        None None [] =
       (Inl (TypeError ''got multiple values for keyword argument''),
        step_keyword_manager\<lparr>running := True,
          event_manager := [ProgressStartEvent () 7 ''copying'' 2 [(''step'', 5)]]\<rparr>)
   \<and> step_count (snd (step (step_keyword_manager\<lparr>running := True,
          event_manager := [ProgressStartEvent () 7 ''copying'' 2 [(''step'', 5)]]\<rparr>)
        None None [])) = 0"
  by (simp add: ProgressManager_init_def step_keyword_manager_def init_parameters_def
      repeated_keyword_def start_def step_def Let_def emit_def dict_update_def)

text \<open>
  C3 (as amended). A constructed manager is used in a with statement; the block leaves
  it running (state \<open>s2\<close>), and its keywords repeat none of \<open>source\<close>, \<open>operation_id\<close>,
  \<open>message\<close> and \<open>exit_state\<close>. If the block raised \<open>x\<close>, scope exit emits exactly one
  End event, with exit state \<open>exception\<close> and the text of \<open>x\<close> as message, and \<open>x\<close>
  itself reaches the caller. If the block returned, scope exit emits exactly one End
  event with exit state \<open>normal\<close> and the block's value is the result.
\<close>

theorem scope_exit_reports_and_propagates:
  assumes "constructed self"
    and "block (snd (enter self)) = (result, s2)"
    and "running s2"
    and "\<not> repeated_keyword [''source'', ''operation_id'', ''message'', ''exit_state'']
           (kwargs s2)"
  shows "with_progress self str block =
     (case result of
        Inl x \<Rightarrow>
          (Inl (Original x),
           s2\<lparr>event_manager := event_manager s2 @
                 [ProgressEndEvent (source s2) (operation_id s2) (str x) ''exception''
                    (kwargs s2)],
               running := False\<rparr>)
      | Inr v \<Rightarrow>
          (Inr v,
           s2\<lparr>event_manager := event_manager s2 @
                 [ProgressEndEvent (source s2) (operation_id s2) (message s2) ''normal''
                    (kwargs s2)],
               running := False\<rparr>))"
proof -
  have ent: "fst (enter self) = Inr ()"
    using start_names_free [OF assms(1)]
    by (simp add: enter_def start_returns dict_update_Nil)
  have ok: "\<not> repeated_keyword [''source'', ''operation_id'', ''message'', ''exit_state'']
              (dict_update (kwargs s2) [])"
    using assms(4) by (simp add: dict_update_Nil)
  have ex: "exit s2 exc =
     (Inr (), s2\<lparr>event_manager := event_manager s2 @
         [ProgressEndEvent (source s2) (operation_id s2)
            (case exc of None \<Rightarrow> message s2 | Some t \<Rightarrow> t)
            (case exc of None \<Rightarrow> ''normal'' | Some t \<Rightarrow> ''exception'') (kwargs s2)],
        running := False\<rparr>)" for exc
    using assms(3)
    by (cases exc) (simp_all add: exit_def end_returns [OF assms(3) ok] dict_update_Nil)
  obtain s1 where e: "enter self = (Inr (), s1)"
    using ent by (cases "enter self") auto
  show ?thesis
    using assms(2) by (cases result) (simp_all add: with_progress_def e ex)
qed

theorem scope_exit_reports_and_propagates_witness:
  "with_progress idle_manager id failing_block =
     (Inl (Original ''disk full''),
      idle_manager\<lparr>step_count := 1, event_manager :=
        [ProgressStartEvent () 7 ''copying'' 2 [(''user'', 1)],
         ProgressStepEvent () 7 ''copying'' 0 [(''user'', 1)],
         ProgressEndEvent () 7 ''disk full'' ''exception'' [(''user'', 1)]]\<rparr>)"
proof -
  have c: "constructed idle_manager"
    by (rule init_constructed [OF init_idle])
  have b: "failing_block (snd (enter idle_manager)) =
     (Inl ''disk full'', idle_manager\<lparr>running := True, step_count := 1, event_manager :=
        [ProgressStartEvent () 7 ''copying'' 2 [(''user'', 1)],
         ProgressStepEvent () 7 ''copying'' 0 [(''user'', 1)]]\<rparr>)"
    by (simp add: failing_block_def enter_def start_def step_def idle_manager_def Let_def
        emit_def dict_update_def repeated_keyword_def)
  show ?thesis
    using scope_exit_reports_and_propagates
      [where self = idle_manager and block = failing_block and str = id, OF c b]
    by (simp add: idle_manager_def repeated_keyword_def)
qed

text \<open>
  C3 as stated fails for a manager constructed with an extra keyword named
  \<open>exit_state\<close>: when the block raises, \<^verbatim>\<open>__exit__\<close> calls \<open>end\<close>, which builds its
  event with \<open>exit_state\<close> given twice and raises TypeError. No End event is emitted and
  the TypeError reaches the caller in place of the block's exception.
\<close>

theorem scope_exit_counterexample:
  "ProgressManager_init [] () 7 ''copying'' 2 [(''exit_state'', 5)] = Inr exit_keyword_manager
   \<and> with_progress exit_keyword_manager id (\<lambda>progress. (Inl ''disk full'', progress)) =
       (Inl (Replaced (TypeError ''got multiple values for keyword argument''))
          :: string propagated + unit,
        exit_keyword_manager\<lparr>running := True,
          event_manager := [ProgressStartEvent () 7 ''copying'' 2 [(''exit_state'', 5)]]\<rparr>)"
  by (simp add: ProgressManager_init_def exit_keyword_manager_def init_parameters_def
      repeated_keyword_def with_progress_def enter_def exit_def start_def end_progress_def
      Let_def emit_def dict_update_def)

section \<open>Reading the table: \<open>get_metadata\<close> and \<open>query\<close>\<close>

lemma fold_fields:
  "fold dict_put (List.map_filter (\<lambda>f. map_option (Pair f) (m f)) sel) acc
   = (\<lambda>f. if f \<in> set sel \<and> m f \<noteq> None then m f else acc f)"
proof (induction sel arbitrary: acc)
  case Nil
  then show ?case by (simp add: List.map_filter_simps)
next
  case (Cons a sel)
  show ?case
  proof (cases "m a")
    case None
    then show ?thesis
      by (auto simp: List.map_filter_simps Cons.IH fun_eq_iff)
  next
    case (Some v)
    then show ?thesis
      by (simp add: List.map_filter_simps Cons.IH) (auto simp: fun_eq_iff dict_put_def)
  qed
qed

text \<open>The dictionary built from \<open>select\<close> is the metadata restricted to the selected names.\<close>

lemma select_fields_restrict: "select_fields m sel = m |` set sel"
  by (auto simp: select_fields_def dict_of_def fold_fields restrict_map_def fun_eq_iff)

lemma rows_of_key_empty:
  "(rows_of_key rows key = []) = (key \<notin> fst ` set rows)"
  by (induction rows) (auto simp: rows_of_key_def)

lemma rows_of_key_first:
  "map_of rows key = Some (m, d) \<Longrightarrow> \<exists>rest. rows_of_key rows key = (key, m, d) # rest"
  by (induction rows) (auto simp: rows_of_key_def split: if_splits)

lemma matches_iff: "matches kw m = (\<forall>(arg, v) \<in> set kw. py_eq (dict_get m arg) v)"
  by (simp add: matches_def list_all_iff)

lemma query_select_filter:
  "query_select sel kw rows =
     [(key, m |` set sel). (key, m, d) \<leftarrow> rows, matches kw m]"
  by (induction rows) (auto simp: select_fields_restrict)

lemma query_all_filter:
  "query_all kw rows = [(key, m). (key, m, d) \<leftarrow> rows, matches kw m]"
  by (induction rows) auto

text \<open>
  C8. On a connected store: when no row has the key, \<open>get_metadata\<close> raises KeyError,
  whatever \<open>select\<close> is. When the key's row holds metadata \<open>m\<close>, \<open>get_metadata\<close> with a
  select list returns \<open>m\<close> restricted to the selected names (the requested fields that
  \<open>m\<close> has; a requested field that \<open>m\<close> lacks is left out and is no error), and without
  select it returns \<open>m\<close>.
\<close>

theorem get_metadata_select:
  assumes "connection self = Some rows"
  shows "(key \<notin> fst ` set rows \<longrightarrow> get_metadata self key select = Inl (KeyError key))
       \<and> (\<forall>m d. map_of rows key = Some (m, d) \<longrightarrow>
            get_metadata self key (Some sel) = Inr (m |` set sel)
          \<and> get_metadata self key None = Inr m)"
proof -
  have absent: "get_metadata self key select = Inl (KeyError key)"
    if "key \<notin> fst ` set rows"
    using that assms rows_of_key_empty [of rows key] by (simp add: get_metadata_def)
  have present: "get_metadata self key (Some sel) = Inr (m |` set sel)
          \<and> get_metadata self key None = Inr m"
    if stored: "map_of rows key = Some (m, d)" for m d
  proof -
    obtain rest where "rows_of_key rows key = (key, m, d) # rest"
      using rows_of_key_first [OF stored] by blast
    then show ?thesis
      using assms by (simp add: get_metadata_def select_fields_restrict)
  qed
  show ?thesis using absent present by blast
qed

theorem get_metadata_select_witness:
  "get_metadata status_store ''report'' (Some [''status'', ''owner'']) =
     Inr [''status'' \<mapsto> PStr ''done'']
   \<and> get_metadata status_store ''report'' None =
     Inr [''status'' \<mapsto> PStr ''done'', ''size'' \<mapsto> PInt 3]
   \<and> get_metadata status_store ''memo'' (Some [''status'']) = Inl (KeyError ''memo'')"
proof -
  have r: "[''status'' \<mapsto> PStr ''done'', ''size'' \<mapsto> PInt 3] |` set [''status'', ''owner'']
           = [''status'' \<mapsto> PStr ''done'']"
    by (auto simp: restrict_map_def fun_eq_iff)
  show ?thesis
    using get_metadata_select
        [of status_store _ "''report''" "Some [''status'']" "[''status'', ''owner'']"]
      get_metadata_select [of status_store _ "''memo''" "Some [''status'']" "[]"]
    by (simp add: status_store_def SqliteStore_init_def r)
qed

text \<open>
  C6. On a connected store \<open>query\<close> yields, in scan order, one pair per row whose
  metadata \<open>m\<close> satisfies \<^verbatim>\<open>m.get(arg) == v\<close> for every predicate \<open>(arg, v)\<close>: the row's
  key with \<open>m\<close>, or with \<open>m\<close> restricted to the select fields when \<open>select\<close> is given.
  With no predicate every row is yielded.
\<close>

theorem query_yields_matching_rows:
  assumes "connection self = Some rows"
  shows "query self select kw =
           Inr [(key, case select of None \<Rightarrow> m | Some sel \<Rightarrow> m |` set sel).
                  (key, m, d) \<leftarrow> rows, \<forall>(arg, v) \<in> set kw. py_eq (dict_get m arg) v]
       \<and> query self select [] =
           Inr (map (\<lambda>(key, m, d). (key, case select of None \<Rightarrow> m | Some sel \<Rightarrow> m |` set sel))
                  rows)"
proof -
  have all: "[(key, f m). (key, m, d) \<leftarrow> rows, matches [] m] = map (\<lambda>(key, m, d). (key, f m)) rows"
    for f :: "metadata \<Rightarrow> metadata"
    by (induction rows) (auto simp: matches_def)
  show ?thesis
  proof (cases select)
    case None
    show ?thesis
      unfolding None using assms all [of "\<lambda>m. m"]
      by (simp add: query_def query_all_filter matches_iff cong: if_cong)
  next
    case (Some sel)
    show ?thesis
      unfolding Some using assms all [of "\<lambda>m. m |` set sel"]
      by (simp add: query_def query_select_filter matches_iff cong: if_cong)
  qed
qed

theorem query_yields_matching_rows_witness:
  "query status_store None [(''status'', PStr ''done'')] =
     Inr [(''report'', [''status'' \<mapsto> PStr ''done'', ''size'' \<mapsto> PInt 3])]
   \<and> query status_store None [] =
     Inr [(''report'', [''status'' \<mapsto> PStr ''done'', ''size'' \<mapsto> PInt 3]),
          (''draft'', [''status'' \<mapsto> PStr ''pending''])]"
  using query_yields_matching_rows [of status_store _ None "[(''status'', PStr ''done'')]"]
  by (simp add: status_store_def SqliteStore_init_def dict_get_def)

section \<open>Writing: \<open>set\<close>, \<open>delete\<close>, \<open>exists\<close> and \<open>multiset\<close>\<close>

text \<open>
  Whatever attributes the store object has, \<open>set\<close> and \<open>delete\<close> never write through the
  connection and never return normally: what \<open>get\<close> reads is what it read before.
\<close>

lemma set_data_keeps_connection:
  "connection (snd (set_data self key data buffer_size)) = connection self"
  by (simp add: set_data_def Let_def split: option.splits prod.splits)

lemma set_keeps_connection:
  "connection (snd (set_value self key v buffer_size)) = connection self"
  by (cases v) (simp add: set_value_def set_data_keeps_connection split: option.splits)

lemma get_after_set:
  "get (snd (set_value self key v buffer_size)) k = get self k"
  by (simp add: get_def set_keeps_connection)

lemma set_always_raises: "fst (set_value self key v buffer_size) \<noteq> Inr ()"
  by (cases v) (simp add: set_value_def set_data_def Let_def split: option.splits prod.splits)

lemma delete_always_raises:
  "fst (delete self key) \<noteq> Inr ()
   \<and> store_event_manager (snd (delete self key)) = store_event_manager self
   \<and> connection (snd (delete self key)) = connection self"
  by (simp add: delete_def Let_def split: option.splits)

text \<open>The generic batch operations read no further than the shorter of their two inputs.\<close>

lemma for_each_pair_truncates:
  "for_each_pair f self keys vals =
     for_each_pair f self (take (min (length keys) (length vals)) keys)
       (take (min (length keys) (length vals)) vals)"
proof (induction keys arbitrary: self vals)
  case Nil
  show ?case by simp
next
  case (Cons key keys)
  note IH = Cons.IH
  show ?case
  proof (cases vals)
    case Nil
    then show ?thesis by simp
  next
    case (Cons v rest)
    show ?thesis
      unfolding Cons using IH [of _ rest]
      by (simp split: prod.splits sum.splits)
  qed
qed

text \<open>
  C1. The claim: after \<open>set(k, (data, meta))\<close> on a connected store, \<open>get(k)\<close> returns
  \<open>(data, meta)\<close>. The code, on a store whose table is empty: \<open>set\<close> raises
  AttributeError at \<^verbatim>\<open>self._metadata\<close> and leaves the store as it was, and \<open>get\<close> of
  the same key then raises KeyError.
\<close>

theorem set_then_get_diverges:
  "set_value empty_store ''report'' (''abc'', [''status'' \<mapsto> PStr ''done'']) 1048576 =
     (Inl (AttributeError ''_metadata''), empty_store)
   \<and> get (snd (set_value empty_store ''report'' (''abc'', [''status'' \<mapsto> PStr ''done''])
              1048576)) ''report'' = Inl (KeyError ''report'')"
  by (simp add: set_value_def empty_store_def SqliteStore_init_def get_def rows_of_key_def)

text \<open>
  C7. The claim: \<open>delete(k)\<close> fails with not-found when \<open>k\<close> is absent, and when \<open>k\<close> is
  present removes data and metadata, after which \<open>exists(k)\<close> is false, and emits one
  StoreDeleteEvent. The code, on a store whose table holds a row for \<open>report\<close>:
  \<open>delete\<close> raises AttributeError at \<^verbatim>\<open>self._data\<close> for the present key and for an
  absent one alike, emits nothing and leaves the row where it is (\<open>get\<close> still returns
  it); \<open>exists\<close> raises AttributeError too.
\<close>

theorem delete_diverges:
  "delete report_store ''report'' = (Inl (AttributeError ''_data''), report_store)
   \<and> exists report_store ''report'' = Inl (AttributeError ''_data'')
   \<and> get report_store ''report'' = Inr (''abc'', [''status'' \<mapsto> PStr ''done''])
   \<and> delete report_store ''memo'' = (Inl (AttributeError ''_data''), report_store)"
  by (simp add: delete_def exists_def report_store_def SqliteStore_init_def get_def
      rows_of_key_def)

text \<open>
  C2. The claim: \<open>multiset\<close> with three keys and two values sets the first two keys
  without error and leaves the third untouched, and likewise \<open>multiset_data\<close>,
  \<open>multiset_metadata\<close> and \<open>multiupdate_metadata\<close>. The code, on a store whose table is
  empty: in each of the four the first singular call raises AttributeError, which ends
  the batch; nothing is set, and \<open>get\<close> of the first key raises KeyError.
\<close>

theorem multiset_diverges:
  "multiset empty_store [''k1'', ''k2'', ''k3'']
     [(''a'', Map.empty), (''b'', Map.empty)] 1048576 =
     (Inl (AttributeError ''_metadata''), empty_store)
   \<and> multiset_data empty_store [''k1'', ''k2'', ''k3''] [''a'', ''b''] 1048576 =
     (Inl (AttributeError ''_data''), empty_store)
   \<and> multiset_metadata empty_store [''k1'', ''k2'', ''k3''] [Map.empty, Map.empty] =
     (Inl (AttributeError ''_metadata''), empty_store)
   \<and> multiupdate_metadata empty_store [''k1'', ''k2'', ''k3''] [Map.empty, Map.empty] =
     (Inl (AttributeError ''_metadata''), empty_store)
   \<and> get empty_store ''k1'' = Inl (KeyError ''k1'')"
  by (simp add: multiset_def multiset_data_def multiset_metadata_def multiupdate_metadata_def
      set_value_def set_data_def set_metadata_def update_metadata_def empty_store_def
      SqliteStore_init_def get_def rows_of_key_def)

end
